theory Spec2Isabelle
  imports Complex_Main
begin

section \<open>The Python values the generator computes with\<close>

text \<open>
  \<^verbatim>\<open>scripts/gen-favicon.py\<close> defines one function, \<^verbatim>\<open>generate_log_ruler_svg\<close>, and calls it
  once. Its numeric parameters are untyped: the defaults and the driver pass Python
  \<^verbatim>\<open>int\<close>s, and the function itself creates \<^verbatim>\<open>float\<close>s (\<^verbatim>\<open>math.log\<close>, \<^verbatim>\<open>/\<close>, \<^verbatim>\<open>+ 0.5\<close>).
  A number is therefore either an unbounded integer or a float, a float being given by
  its value.
\<close>

datatype pynum = PyInt int | PyFloat real

fun val :: "pynum \<Rightarrow> real" where
  "val (PyInt n) = of_int n"
| "val (PyFloat r) = r"

text \<open>
  Every operation on floats rounds its exact result to a float, and \<^verbatim>\<open>math.log\<close> is the
  logarithm of the platform's C library. Both are parameters of the generator below:
  \<open>fl_round\<close> sends the exact result of an operation to the float that is returned, and
  \<open>fl_log\<close> is \<^verbatim>\<open>math.log\<close> on a float.
\<close>

record float_ops =
  fl_round :: "real \<Rightarrow> real"
  fl_log :: "real \<Rightarrow> real"

text \<open>Arithmetic that never rounds, with the natural logarithm.\<close>

definition exact_arith :: float_ops where
  "exact_arith = \<lparr> fl_round = (\<lambda>x. x), fl_log = ln \<rparr>"

text \<open>
  Python's floats are IEEE 754 doubles: 53 significant bits, results rounded to the
  nearest double, a tie going to the even significand. \<open>round_double\<close> is this rounding
  for results in the normal range; overflow to infinity, subnormal results and NaN are
  outside this model.
\<close>

definition round_half_even :: "real \<Rightarrow> int" where
  "round_half_even x =
     (let f = \<lfloor>x\<rfloor> in
      if x - of_int f < 1 / 2 then f
      else if 1 / 2 < x - of_int f then f + 1
      else if even f then f else f + 1)"

definition round_double :: "real \<Rightarrow> real" where
  "round_double x =
     (if x = 0 then 0
      else let e = \<lfloor>log 2 \<bar>x\<bar>\<rfloor> - 52
           in of_int (round_half_even (x / 2 powi e)) * 2 powi e)"

definition binary64 :: "(real \<Rightarrow> real) \<Rightarrow> float_ops" where
  "binary64 platform_log = \<lparr> fl_round = round_double, fl_log = platform_log \<rparr>"

text \<open>A logarithm that returns the double nearest to the natural logarithm.\<close>

definition rounded_ln :: "real \<Rightarrow> real" where
  "rounded_ln x = round_double (ln x)"

text \<open>
  An int that meets a float in an operation is converted to a float first. (An int too
  large for a double raises \<^verbatim>\<open>OverflowError\<close> there; such ints are outside this model.)
\<close>

fun to_float :: "float_ops \<Rightarrow> pynum \<Rightarrow> real" where
  "to_float fl (PyInt n) = fl_round fl (of_int n)"
| "to_float fl (PyFloat r) = r"

text \<open>\<^verbatim>\<open>+\<close>, \<^verbatim>\<open>-\<close>, \<^verbatim>\<open>*\<close>: two ints give an int, anything else a float.\<close>

fun py_add :: "float_ops \<Rightarrow> pynum \<Rightarrow> pynum \<Rightarrow> pynum" where
  "py_add fl (PyInt a) (PyInt b) = PyInt (a + b)"
| "py_add fl a b = PyFloat (fl_round fl (to_float fl a + to_float fl b))"

fun py_sub :: "float_ops \<Rightarrow> pynum \<Rightarrow> pynum \<Rightarrow> pynum" where
  "py_sub fl (PyInt a) (PyInt b) = PyInt (a - b)"
| "py_sub fl a b = PyFloat (fl_round fl (to_float fl a - to_float fl b))"

fun py_mul :: "float_ops \<Rightarrow> pynum \<Rightarrow> pynum \<Rightarrow> pynum" where
  "py_mul fl (PyInt a) (PyInt b) = PyInt (a * b)"
| "py_mul fl a b = PyFloat (fl_round fl (to_float fl a * to_float fl b))"

text \<open>
  The two operations of the loop body that can raise: \<^verbatim>\<open>math.log\<close> of an int that is not
  positive (\<^verbatim>\<open>ValueError: math domain error\<close>) and the division of two floats when the
  divisor is zero. \<^verbatim>\<open>math.log\<close> converts its int argument to a float.
\<close>

datatype py_error = ValueError | ZeroDivisionError

definition math_log :: "float_ops \<Rightarrow> int \<Rightarrow> py_error + real" where
  "math_log fl n =
     (if n \<le> 0 then Inl ValueError else Inr (fl_log fl (fl_round fl (of_int n))))"

definition py_truediv :: "float_ops \<Rightarrow> real \<Rightarrow> real \<Rightarrow> py_error + real" where
  "py_truediv fl a b = (if b = 0 then Inl ZeroDivisionError else Inr (fl_round fl (a / b)))"


section \<open>Formatting numbers\<close>

text \<open>\<^verbatim>\<open>str\<close> of an int: the decimal digits, with a minus sign when negative.\<close>

definition digit_char :: "nat \<Rightarrow> char" where
  "digit_char d = ''0123456789'' ! d"

fun str_nat :: "nat \<Rightarrow> string" where
  "str_nat n = (if n < 10 then [digit_char n] else str_nat (n div 10) @ [digit_char (n mod 10)])"

declare str_nat.simps [simp del]

definition str_int :: "int \<Rightarrow> string" where
  "str_int n = (if n < 0 then ''-'' @ str_nat (nat (- n)) else str_nat (nat n))"

text \<open>
  An f-string field \<^verbatim>\<open>{v}\<close> prints \<^verbatim>\<open>str(v)\<close>. For a float this is the shortest decimal
  that reads back as the same double; it is the parameter \<open>float_repr\<close> of everything
  below that prints a number.
\<close>

fun py_str :: "(real \<Rightarrow> string) \<Rightarrow> pynum \<Rightarrow> string" where
  "py_str float_repr (PyInt n) = str_int n"
| "py_str float_repr (PyFloat r) = float_repr r"

text \<open>
  A field \<^verbatim>\<open>{v:.1f}\<close> prints the value of the float rounded to one digit after the point,
  a tie going to the even digit, and keeps the sign of a negative value that rounds to
  zero. An int is converted to a float first.
\<close>

definition fixed_1f :: "real \<Rightarrow> string" where
  "fixed_1f x =
     (let t = round_half_even (\<bar>x\<bar> * 10) in
      (if x < 0 then ''-'' else '''')
        @ str_nat (nat (t div 10)) @ ''.'' @ str_nat (nat (t mod 10)))"

definition fmt_1f :: "float_ops \<Rightarrow> pynum \<Rightarrow> string" where
  "fmt_1f fl v = fixed_1f (to_float fl v)"

text \<open>
  One decimal digit is also what \<^verbatim>\<open>str\<close> prints for a float such as \<^verbatim>\<open>2.5\<close> or \<^verbatim>\<open>64.0\<close>:
  \<open>repr_tenths\<close> is \<open>float_repr\<close> on the floats that are a whole number of tenths, the
  only ones the driver's parameters make \<^verbatim>\<open>str\<close> print.
\<close>

definition repr_tenths :: "real \<Rightarrow> string" where
  "repr_tenths r = fixed_1f r"

text \<open>\<^verbatim>\<open>'\n'.join(svg_lines)\<close>\<close>

fun join_newline :: "string list \<Rightarrow> string" where
  "join_newline [] = ''''"
| "join_newline [l] = l"
| "join_newline (l # ls) = l @ [CHR 0x0A] @ join_newline ls"


section \<open>The generator\<close>

record params =
  num_marks :: int
  width :: pynum
  height :: pynum
  margin :: pynum
  baseline_y :: pynum
  color :: string
  baseline_thickness :: pynum
  mark_thickness :: pynum
  tall_height :: pynum
  medium_height :: pynum
  short_height :: pynum

definition x_start :: "params \<Rightarrow> pynum" where
  "x_start p = margin p"

definition x_end :: "float_ops \<Rightarrow> params \<Rightarrow> pynum" where
  "x_end fl p = py_sub fl (width p) (margin p)"

definition ruler_width :: "float_ops \<Rightarrow> params \<Rightarrow> pynum" where
  "ruler_width fl p = py_sub fl (x_end fl p) (x_start p)"

text \<open>
  The position ratio of mark \<open>i\<close>: the int \<^verbatim>\<open>0\<close> when there is one mark, else
  \<^verbatim>\<open>math.log(i + 1) / math.log(num_marks)\<close>, evaluated left to right.
\<close>

definition ratio :: "float_ops \<Rightarrow> params \<Rightarrow> int \<Rightarrow> py_error + pynum" where
  "ratio fl p i =
     (if num_marks p = 1 then Inr (PyInt 0)
      else case math_log fl (i + 1) of
             Inl e \<Rightarrow> Inl e
           | Inr a \<Rightarrow>
               (case math_log fl (num_marks p) of
                  Inl e \<Rightarrow> Inl e
                | Inr b \<Rightarrow>
                    (case py_truediv fl a b of
                       Inl e \<Rightarrow> Inl e
                     | Inr q \<Rightarrow> Inr (PyFloat q))))"

text \<open>The locals of one pass through the loop body.\<close>

record mark =
  x_pos :: pynum
  mark_height :: pynum
  thickness :: pynum
  y_top :: pynum

definition weight :: "float_ops \<Rightarrow> params \<Rightarrow> int \<Rightarrow> pynum \<times> pynum" where
  "weight fl p i =
     (if i = 0 \<or> i = num_marks p - 1
        then (tall_height p, py_add fl (mark_thickness p) (PyFloat (1 / 2)))
      else if i mod 2 = 0
        then (medium_height p, mark_thickness p)
      else (short_height p, mark_thickness p))"

definition mark_of :: "float_ops \<Rightarrow> params \<Rightarrow> int \<Rightarrow> py_error + mark" where
  "mark_of fl p i =
     (case ratio fl p i of
        Inl e \<Rightarrow> Inl e
      | Inr r \<Rightarrow>
          Inr \<lparr> x_pos = py_add fl (x_start p) (py_mul fl (ruler_width fl p) r),
                mark_height = fst (weight fl p i),
                thickness = snd (weight fl p i),
                y_top = py_sub fl (baseline_y p) (fst (weight fl p i)) \<rparr>)"

text \<open>
  The three lines a mark appends. The comment holds the character U+2248 (almost equal
  to), written here as the three bytes of its UTF-8 encoding.
\<close>

definition almost_equal :: string where
  "almost_equal = [CHR 0xE2, CHR 0x89, CHR 0x88]"

definition mark_lines ::
  "float_ops \<Rightarrow> (real \<Rightarrow> string) \<Rightarrow> params \<Rightarrow> int \<Rightarrow> mark \<Rightarrow> string list" where
  \<open>mark_lines fl float_repr p i m =
     [''  <!-- Mark '' @ str_int i @ '': x'' @ almost_equal @ fmt_1f fl (x_pos m) @ '' -->'',
      ''  <line x1="'' @ fmt_1f fl (x_pos m)
        @ ''" y1="'' @ py_str float_repr (baseline_y p)
        @ ''" x2="'' @ fmt_1f fl (x_pos m)
        @ ''" y2="'' @ py_str float_repr (y_top m)
        @ ''" stroke="'' @ color p
        @ ''" stroke-width="'' @ py_str float_repr (thickness m) @ ''"/>'',
      '''']\<close>

text \<open>The five lines appended before the loop.\<close>

definition header_lines :: "float_ops \<Rightarrow> (real \<Rightarrow> string) \<Rightarrow> params \<Rightarrow> string list" where
  \<open>header_lines fl float_repr p =
     [''<svg xmlns="http://www.w3.org/2000/svg" viewBox="0 0 '' @ py_str float_repr (width p)
        @ '' '' @ py_str float_repr (height p) @ ''">'',
      ''  <!-- Horizontal baseline -->'',
      ''  <line x1="'' @ py_str float_repr (x_start p)
        @ ''" y1="'' @ py_str float_repr (baseline_y p)
        @ ''" x2="'' @ py_str float_repr (x_end fl p)
        @ ''" y2="'' @ py_str float_repr (baseline_y p)
        @ ''" stroke="'' @ color p
        @ ''" stroke-width="'' @ py_str float_repr (baseline_thickness p) @ ''"/>'',
      '''',
      ''  <!-- Log-spaced markings -->'']\<close>

text \<open>
  \<^verbatim>\<open>for i in range(num_marks)\<close>: the indices still to visit and the lines so far. An
  exception in the body ends the call.
\<close>

fun marks_loop ::
  "float_ops \<Rightarrow> (real \<Rightarrow> string) \<Rightarrow> params \<Rightarrow> int list \<Rightarrow> string list
     \<Rightarrow> py_error + string list" where
  "marks_loop fl float_repr p [] svg_lines = Inr svg_lines"
| "marks_loop fl float_repr p (i # rest) svg_lines =
     (case mark_of fl p i of
        Inl e \<Rightarrow> Inl e
      | Inr m \<Rightarrow>
          marks_loop fl float_repr p rest (svg_lines @ mark_lines fl float_repr p i m))"

text \<open>\<^verbatim>\<open>range(n)\<close> for an int \<open>n\<close>: empty when \<open>n \<le> 0\<close>.\<close>

definition py_range :: "int \<Rightarrow> int list" where
  "py_range n = [0..n - 1]"

definition svg_lines_of ::
  "float_ops \<Rightarrow> (real \<Rightarrow> string) \<Rightarrow> params \<Rightarrow> py_error + string list" where
  "svg_lines_of fl float_repr p =
     (case marks_loop fl float_repr p (py_range (num_marks p)) (header_lines fl float_repr p) of
        Inl e \<Rightarrow> Inl e
      | Inr ls \<Rightarrow> Inr (ls @ [''</svg>'']))"

definition generate_log_ruler_svg ::
  "float_ops \<Rightarrow> (real \<Rightarrow> string) \<Rightarrow> params \<Rightarrow> py_error + string" where
  "generate_log_ruler_svg fl float_repr p =
     (case svg_lines_of fl float_repr p of
        Inl e \<Rightarrow> Inl e
      | Inr ls \<Rightarrow> Inr (join_newline ls))"

text \<open>The parameters the script passes, and the defaults of the signature.\<close>

definition driver_params :: params where
  "driver_params =
     \<lparr> num_marks = 10, width = PyInt 64, height = PyInt 64, margin = PyInt 5,
       baseline_y = PyInt 55, color = ''#333'', baseline_thickness = PyInt 3,
       mark_thickness = PyInt 2, tall_height = PyInt 40, medium_height = PyInt 30,
       short_height = PyInt 20 \<rparr>"

definition default_params :: params where
  "default_params =
     \<lparr> num_marks = 8, width = PyInt 100, height = PyInt 100, margin = PyInt 10,
       baseline_y = PyInt 70, color = ''#333'', baseline_thickness = PyInt 3,
       mark_thickness = PyInt 2, tall_height = PyInt 40, medium_height = PyInt 30,
       short_height = PyInt 20 \<rparr>"

text \<open>
  \<^verbatim>\<open>generate_log_ruler_svg(num_marks=2, width=4.7, margin=-2.0)\<close>: the literal \<^verbatim>\<open>4.7\<close> is
  the double nearest to 47/10.
\<close>

definition skewed_params :: params where
  "skewed_params =
     default_params \<lparr> num_marks := 2, width := PyFloat (round_double (47 / 10)),
                      margin := PyFloat (- 2) \<rparr>"


section \<open>The parts of the document, named\<close>

text \<open>
  The properties below speak of the opening tag, of line elements and of comment lines.
  These definitions name them; the generator above does not use them.
\<close>

definition svg_open :: "string \<Rightarrow> string \<Rightarrow> string" where
  \<open>svg_open w h =
     ''<svg xmlns="http://www.w3.org/2000/svg" viewBox="0 0 '' @ w @ '' '' @ h @ ''">''\<close>

definition line_element ::
  "string \<Rightarrow> string \<Rightarrow> string \<Rightarrow> string \<Rightarrow> string \<Rightarrow> string \<Rightarrow> string" where
  \<open>line_element x1 y1 x2 y2 stroke stroke_width =
     ''  <line x1="'' @ x1 @ ''" y1="'' @ y1 @ ''" x2="'' @ x2 @ ''" y2="'' @ y2
       @ ''" stroke="'' @ stroke @ ''" stroke-width="'' @ stroke_width @ ''"/>''\<close>

definition is_line_element :: "string \<Rightarrow> bool" where
  "is_line_element l = (take 7 l = ''  <line'')"

definition is_comment :: "string \<Rightarrow> bool" where
  "is_comment l = (take 6 l = ''  <!--'')"

definition is_svg_open :: "string \<Rightarrow> bool" where
  "is_svg_open l = (take 4 l = ''<svg'')"

text \<open>The baseline's element, and the element and the comment of mark \<open>i\<close>.\<close>

definition baseline_element :: "float_ops \<Rightarrow> (real \<Rightarrow> string) \<Rightarrow> params \<Rightarrow> string" where
  "baseline_element fl float_repr p =
     line_element (py_str float_repr (margin p)) (py_str float_repr (baseline_y p))
       (py_str float_repr (py_sub fl (width p) (margin p))) (py_str float_repr (baseline_y p))
       (color p) (py_str float_repr (baseline_thickness p))"

definition tick_element ::
  "float_ops \<Rightarrow> (real \<Rightarrow> string) \<Rightarrow> params \<Rightarrow> mark \<Rightarrow> string" where
  "tick_element fl float_repr p m =
     line_element (fmt_1f fl (x_pos m)) (py_str float_repr (baseline_y p))
       (fmt_1f fl (x_pos m)) (py_str float_repr (py_sub fl (baseline_y p) (mark_height m)))
       (color p) (py_str float_repr (thickness m))"

definition tick_comment :: "float_ops \<Rightarrow> int \<Rightarrow> mark \<Rightarrow> string" where
  "tick_comment fl i m =
     ''  <!-- Mark '' @ str_int i @ '': x'' @ almost_equal @ fmt_1f fl (x_pos m) @ '' -->''"

text \<open>The mark of index \<open>i\<close> when the loop body does not raise there.\<close>

definition the_mark :: "float_ops \<Rightarrow> params \<Rightarrow> int \<Rightarrow> mark" where
  "the_mark fl p i = projr (mark_of fl p i)"

text \<open>
  The document in the words of the specification, a sequence of exactly these lines: the
  opening tag, the baseline's element, one element for each mark, the closing tag.
\<close>

definition spec_document_lines ::
  "float_ops \<Rightarrow> (real \<Rightarrow> string) \<Rightarrow> params \<Rightarrow> string list" where
  "spec_document_lines fl float_repr p =
     [svg_open (py_str float_repr (width p)) (py_str float_repr (height p)),
      baseline_element fl float_repr p]
     @ map (\<lambda>i. tick_element fl float_repr p (the_mark fl p i)) (py_range (num_marks p))
     @ [''</svg>'']"


section \<open>Conditions on the arithmetic\<close>

text \<open>
  Where the loop divides by \<^verbatim>\<open>math.log(num_marks)\<close>, that is with two marks or more, the
  logarithm is not zero.
\<close>

definition log_count_nonzero :: "float_ops \<Rightarrow> params \<Rightarrow> bool" where
  "log_count_nonzero fl p =
     (num_marks p \<le> 1 \<or> fl_log fl (fl_round fl (of_int (num_marks p))) \<noteq> 0)"

text \<open>
  The margin, the width and the two differences the generator forms from them are floats
  as they stand, so that no step of \<open>x_end\<close>, \<open>ruler_width\<close> and \<open>x_start + ruler_width\<close>
  rounds.
\<close>

definition no_rounding :: "float_ops \<Rightarrow> params \<Rightarrow> bool" where
  "no_rounding fl p =
     (fl_round fl (val (margin p)) = val (margin p) \<and>
      fl_round fl (val (width p)) = val (width p) \<and>
      fl_round fl (val (width p) - val (margin p)) = val (width p) - val (margin p) \<and>
      fl_round fl (val (width p) - 2 * val (margin p)) = val (width p) - 2 * val (margin p))"


section \<open>Rounding to a double\<close>

lemma round_half_even_of_int [simp]: "round_half_even (of_int n) = n"
  by (simp add: round_half_even_def)

lemma round_half_even_bounds:
  "x - 1 / 2 \<le> of_int (round_half_even x)" "of_int (round_half_even x) \<le> x + 1 / 2"
  unfolding round_half_even_def Let_def by (auto; linarith)+

lemma round_double_0 [simp]: "round_double 0 = 0"
  by (simp add: round_double_def)

lemma two_powr_int: "(2::real) powr (of_int k) = 2 powi k"
  by (rule powr_real_of_int') simp_all

lemma round_double_binade:
  assumes "2 powi k \<le> \<bar>x\<bar>" "\<bar>x\<bar> < 2 powi (k + 1)"
  shows "round_double x = of_int (round_half_even (x / 2 powi (k - 52))) * 2 powi (k - 52)"
proof -
  have "(0::real) < 2 powi k" by (rule zero_less_power_int) simp
  then have x: "0 < \<bar>x\<bar>" using assms(1) by linarith
  have "real_of_int k + 1 = real_of_int (k + 1)" by simp
  then have "2 powr (real_of_int k + 1) = (2::real) powi (k + 1)"
    by (simp only: two_powr_int)
  then have "2 powr (of_int k) \<le> \<bar>x\<bar> \<and> \<bar>x\<bar> < 2 powr (of_int k + 1)"
    using assms by (simp only: two_powr_int)
  then have "\<lfloor>log 2 \<bar>x\<bar>\<rfloor> = k"
    using x floor_log_eq_powr_iff [of "\<bar>x\<bar>" 2 k] by simp
  then show ?thesis using x by (simp add: round_double_def Let_def)
qed

lemma round_double_nonzero:
  assumes "x \<noteq> 0"
  shows "round_double x \<noteq> 0"
proof -
  define k where "k = \<lfloor>log 2 \<bar>x\<bar>\<rfloor>"
  have x: "0 < \<bar>x\<bar>" using assms by simp
  have "2 powr (of_int k) \<le> \<bar>x\<bar>"
    using x floor_log_eq_powr_iff [of "\<bar>x\<bar>" 2 k] by (simp add: k_def)
  then have lo: "2 powi k \<le> \<bar>x\<bar>" by (simp only: two_powr_int)
  have u: "(0::real) < 2 powi (k - 52)" by (rule zero_less_power_int) simp
  have "(2::real) powi (52 + (k - 52)) = 2 powi 52 * 2 powi (k - 52)"
    by (rule power_int_add) simp
  then have "(2::real) powi k = 2 powi 52 * 2 powi (k - 52)"
    by (simp only: add_diff_cancel_left' diff_add_cancel add.commute [of 52])
  then have "2 powi 52 * 2 powi (k - 52) \<le> \<bar>x\<bar>" using lo by simp
  then have "2 powi 52 \<le> \<bar>x\<bar> / 2 powi (k - 52)"
    using u by (simp add: pos_le_divide_eq)
  then have big: "4503599627370496 \<le> \<bar>x / 2 powi (k - 52)\<bar>"
    using u by (simp add: abs_divide)
  have "round_half_even (x / 2 powi (k - 52)) \<noteq> 0"
  proof
    assume z: "round_half_even (x / 2 powi (k - 52)) = 0"
    have "x / 2 powi (k - 52) - 1 / 2 \<le> real_of_int 0"
      "real_of_int 0 \<le> x / 2 powi (k - 52) + 1 / 2"
      using round_half_even_bounds [of "x / 2 powi (k - 52)"] by (simp_all only: z)
    then have "\<bar>x / 2 powi (k - 52)\<bar> \<le> 1 / 2" by linarith
    then show False using big by linarith
  qed
  then show ?thesis
    using assms u by (simp add: round_double_def Let_def k_def)
qed

lemma round_double_exact:
  assumes "2 powi k \<le> \<bar>x\<bar>" "\<bar>x\<bar> < 2 powi (k + 1)" "x / 2 powi (k - 52) = of_int n"
  shows "round_double x = x"
proof -
  have u: "(2::real) powi (k - 52) \<noteq> 0" by simp
  have "round_double x = of_int n * 2 powi (k - 52)"
    using round_double_binade [OF assms(1) assms(2)] by (simp add: assms(3))
  also have "\<dots> = x" using assms(3) u by (simp add: field_simps)
  finally show ?thesis .
qed

lemma small_values:
  "round_double 1 = 1" "round_double 2 = 2" "round_double 5 = 5" "round_double (5 / 2) = 5 / 2"
  "round_double (- 2) = - 2"
proof -
  show "round_double 1 = 1"
    by (rule round_double_exact [where k = 0 and n = "2 ^ 52"]) simp_all
  show "round_double 2 = 2"
    by (rule round_double_exact [where k = 1 and n = "2 ^ 52"]) simp_all
  show "round_double 5 = 5"
    by (rule round_double_exact [where k = 2 and n = "5 * 2 ^ 50"]) simp_all
  show "round_double (5 / 2) = 5 / 2"
    by (rule round_double_exact [where k = 1 and n = "5 * 2 ^ 50"]) simp_all
  show "round_double (- 2) = - 2"
    by (rule round_double_exact [where k = 1 and n = "- (2 ^ 52)"]) simp_all
qed

lemma round_half_even_near:
  assumes "of_int n - 1 / 2 < x" "x < of_int n + 1 / 2"
  shows "round_half_even x = n"
proof (cases "of_int n \<le> x")
  case True
  then have "\<lfloor>x\<rfloor> = n" using assms by linarith
  then show ?thesis using assms by (simp add: round_half_even_def)
next
  case False
  then have "\<lfloor>x\<rfloor> = n - 1" using assms by linarith
  then show ?thesis using assms by (simp add: round_half_even_def)
qed

lemma round_half_even_tie:
  assumes "even n"
  shows "round_half_even (of_int n + 1 / 2) = n"
proof -
  have "\<lfloor>real_of_int n + 1 / 2\<rfloor> = n" by linarith
  then show ?thesis using assms by (simp add: round_half_even_def)
qed

text \<open>The float literal 4.7 and the floats computed from it and from -2.0.\<close>

lemma literal_4_7: "round_double (47 / 10) = 5291729562160333 / 2 ^ 50"
proof -
  have "round_half_even (47 / 10 / 2 powi (2 - 52)) = 5291729562160333"
    by (rule round_half_even_near) simp_all
  then show ?thesis
    using round_double_binade [of 2 "47 / 10"] by simp
qed

lemma sub_4_7: "round_double (5291729562160333 / 2 ^ 50 - (- 2)) = 7543529375845581 / 2 ^ 50"
proof -
  have "round_double (7543529375845581 / 2 ^ 50) = 7543529375845581 / 2 ^ 50"
    by (rule round_double_exact [where k = 2 and n = 7543529375845581]) simp_all
  then show ?thesis by simp
qed

lemma sub_6_7: "round_double (7543529375845581 / 2 ^ 50 - (- 2)) = 4897664594765414 / 2 ^ 49"
proof -
  have "round_half_even (9795329189530829 / 2) = 4897664594765414"
    using round_half_even_tie [of 4897664594765414] by simp
  then have "round_double (9795329189530829 / 2 ^ 50) = 4897664594765414 / 2 ^ 49"
    using round_double_binade [of 3 "9795329189530829 / 2 ^ 50"] by simp
  then show ?thesis by simp
qed

lemma mul_8_7: "round_double (4897664594765414 / 2 ^ 49 * 1) = 4897664594765414 / 2 ^ 49"
proof -
  have "round_double (4897664594765414 / 2 ^ 49) = 4897664594765414 / 2 ^ 49"
    by (rule round_double_exact [where k = 3 and n = 4897664594765414]) simp_all
  then show ?thesis by simp
qed

lemma add_8_7: "round_double (- 2 + 4897664594765414 / 2 ^ 49) = 7543529375845580 / 2 ^ 50"
proof -
  have "round_double (7543529375845580 / 2 ^ 50) = 7543529375845580 / 2 ^ 50"
    by (rule round_double_exact [where k = 2 and n = 7543529375845580]) simp_all
  then show ?thesis by simp
qed


section \<open>The loop never raises\<close>

lemma ratio_float:
  assumes "num_marks p \<noteq> 1" "0 \<le> i" "i < num_marks p" "log_count_nonzero fl p"
  shows "ratio fl p i =
           Inr (PyFloat (fl_round fl (fl_log fl (fl_round fl (of_int (i + 1)))
                                        / fl_log fl (fl_round fl (of_int (num_marks p))))))"
proof -
  have "2 \<le> num_marks p" using assms by linarith
  then have "fl_log fl (fl_round fl (of_int (num_marks p))) \<noteq> 0"
    using assms(4) by (simp add: log_count_nonzero_def)
  then show ?thesis
    using assms by (simp add: ratio_def math_log_def py_truediv_def)
qed

lemma ratio_one: "num_marks p = 1 \<Longrightarrow> ratio fl p i = Inr (PyInt 0)"
  by (simp add: ratio_def)

lemma ratio_ok:
  assumes "0 \<le> i" "i < num_marks p" "log_count_nonzero fl p"
  shows "\<exists>r. ratio fl p i = Inr r"
  using assms ratio_float [of p i fl] ratio_one [of p fl i] by (cases "num_marks p = 1") auto

lemma mark_of_ok:
  assumes "0 \<le> i" "i < num_marks p" "log_count_nonzero fl p"
  shows "\<exists>m. mark_of fl p i = Inr m"
  using ratio_ok [OF assms] by (auto simp: mark_of_def)

lemma mark_of_the_mark:
  assumes "0 \<le> i" "i < num_marks p" "log_count_nonzero fl p"
  shows "mark_of fl p i = Inr (the_mark fl p i)"
  using mark_of_ok [OF assms] by (auto simp: the_mark_def)

lemma marks_loop_total:
  assumes "\<forall>i \<in> set is. 0 \<le> i \<and> i < num_marks p" "log_count_nonzero fl p"
  shows "marks_loop fl rf p is acc =
           Inr (acc @ concat (map (\<lambda>i. mark_lines fl rf p i (the_mark fl p i)) is))"
  using assms(1)
proof (induction "is" arbitrary: acc)
  case Nil
  then show ?case by simp
next
  case (Cons i rest)
  then have "mark_of fl p i = Inr (the_mark fl p i)"
    using assms(2) by (simp add: mark_of_the_mark)
  with Cons show ?case by simp
qed

lemma set_py_range: "set (py_range n) = {i. 0 \<le> i \<and> i < n}"
  by (auto simp: py_range_def)

lemma svg_lines_of_eq:
  assumes "log_count_nonzero fl p"
  shows "svg_lines_of fl rf p =
     Inr (header_lines fl rf p
          @ concat (map (\<lambda>i. mark_lines fl rf p i (the_mark fl p i)) (py_range (num_marks p)))
          @ [''</svg>''])"
  using assms by (simp add: svg_lines_of_def marks_loop_total set_py_range)

lemma py_range_nonpos: "n \<le> 0 \<Longrightarrow> py_range n = []"
  by (simp add: py_range_def)

lemma length_py_range: "length (py_range n) = nat n"
  by (simp add: py_range_def)

lemma nth_py_range: "k < nat n \<Longrightarrow> py_range n ! k = int k"
  by (simp add: py_range_def nth_upto)

lemma nth_concat3:
  assumes "\<forall>x \<in> set xs. length (f x) = 3" "k < length xs" "j < 3"
  shows "concat (map f xs) ! (3 * k + j) = f (xs ! k) ! j"
  using assms
proof (induction xs arbitrary: k)
  case Nil
  then show ?case by simp
next
  case (Cons x xs)
  show ?case
  proof (cases k)
    case 0
    with Cons.prems show ?thesis by (simp add: nth_append)
  next
    case (Suc k')
    with Cons.prems have "concat (map f xs) ! (3 * k' + j) = f (xs ! k') ! j"
      by (intro Cons.IH) auto
    with Suc Cons.prems show ?thesis by (simp add: nth_append)
  qed
qed

lemma length_concat3:
  "\<forall>x \<in> set xs. length (f x) = 3 \<Longrightarrow> length (concat (map f xs)) = 3 * length xs"
  by (induction xs) simp_all

lemma log_count_nonzero_exact [simp]: "log_count_nonzero exact_arith p"
proof (cases "num_marks p \<le> 1")
  case True
  then show ?thesis by (simp add: log_count_nonzero_def)
next
  case False
  then have "ln (real_of_int (num_marks p)) \<noteq> 0" by simp
  then show ?thesis by (simp add: log_count_nonzero_def exact_arith_def)
qed

lemma exact_arith_simps [simp]:
  "fl_round exact_arith x = x" "fl_log exact_arith = ln"
  "to_float exact_arith v = val v"
  by (cases v; simp add: exact_arith_def)+

lemma val_py_sub: "val (py_sub exact_arith a b) = val a - val b"
  by (cases a; cases b) simp_all

lemma val_py_add: "val (py_add exact_arith a b) = val a + val b"
  by (cases a; cases b) simp_all

lemma val_py_mul: "val (py_mul exact_arith a b) = val a * val b"
  by (cases a; cases b) simp_all

lemma mark_of_float:
  assumes "num_marks p \<noteq> 1" "0 \<le> i" "i < num_marks p"
  shows "mark_of exact_arith p i =
     Inr \<lparr> x_pos = PyFloat (val (margin p) + (val (width p) - val (margin p) - val (margin p))
                         * (ln (of_int (i + 1)) / ln (of_int (num_marks p)))),
           mark_height = fst (weight exact_arith p i), thickness = snd (weight exact_arith p i),
           y_top = py_sub exact_arith (baseline_y p) (fst (weight exact_arith p i)) \<rparr>"
proof -
  have m: "py_mul exact_arith a (PyFloat r) = PyFloat (val a * r)" for a r
    by (cases a) simp_all
  have a: "py_add exact_arith a (PyFloat r) = PyFloat (val a + r)" for a r
    by (cases a) simp_all
  have r: "ratio exact_arith p i = Inr (PyFloat (ln (of_int (i + 1)) / ln (of_int (num_marks p))))"
    using ratio_float [OF assms, of exact_arith] by simp
  show ?thesis
    by (simp add: mark_of_def r x_start_def x_end_def ruler_width_def val_py_sub m a)
qed

lemma ratio_exact:
  assumes "num_marks p \<noteq> 1" "0 \<le> i" "i < num_marks p"
  shows "ratio exact_arith p i = Inr (PyFloat (ln (of_int (i + 1)) / ln (of_int (num_marks p))))"
  using ratio_float [OF assms, of exact_arith] by simp

lemma unguarded_ratio_raises:
  "math_log exact_arith 1 = Inr 0 \<and> py_truediv exact_arith 0 0 = Inl ZeroDivisionError"
  by (simp add: math_log_def py_truediv_def)


section \<open>The single mark\<close>

text \<open>
  The properties C2, C3, C4, C5 and C7 are about the values the generator computes. They
  are stated for \<open>exact_arith\<close>, the arithmetic in which no operation rounds. The
  properties of the lines of the document (C6, C8, C10) and of the first and the last
  position (C1) are stated for every arithmetic.
\<close>




section \<open>Height and thickness of a mark\<close>

text \<open>
  C3. In exact arithmetic: for a mark count of at least one and an index \<open>i\<close> of the loop: the first and the
  last index get the tall height and the thickness \<open>mark_thickness + 0.5\<close>, whatever
  their parity; any other even index gets the medium height and \<open>mark_thickness\<close>, any
  other odd index the short height and \<open>mark_thickness\<close>.
\<close>

theorem weight_rule:
  assumes "1 \<le> num_marks p" "0 \<le> i" "i < num_marks p"
  shows "\<exists>m. mark_of exact_arith p i = Inr m \<and>
           (if i = 0 \<or> i = num_marks p - 1
              then mark_height m = tall_height p \<and>
                   thickness m = PyFloat (val (mark_thickness p) + 1 / 2)
            else if even i
              then mark_height m = medium_height p \<and> thickness m = mark_thickness p
            else mark_height m = short_height p \<and> thickness m = mark_thickness p)"
proof -
  obtain r where r: "ratio exact_arith p i = Inr r" using ratio_ok [OF assms(2) assms(3), of exact_arith] by auto
  have t: "py_add exact_arith a (PyFloat (1 / 2)) = PyFloat (val a + 1 / 2)" for a
    by (cases a) simp_all
  have e: "(i mod 2 = 0) = even i" by presburger
  show ?thesis
    by (simp add: mark_of_def r weight_def t e)
qed

theorem weight_rule_witness:
  "1 \<le> num_marks driver_params \<and> (0::int) \<le> 9 \<and> 9 < num_marks driver_params \<and>
   (\<exists>m. mark_of exact_arith driver_params 9 = Inr m \<and> mark_height m = PyInt 40 \<and>
        thickness m = PyFloat (5 / 2)) \<and>
   (\<exists>m. mark_of exact_arith driver_params 4 = Inr m \<and> mark_height m = PyInt 30 \<and>
        thickness m = PyInt 2) \<and>
   (\<exists>m. mark_of exact_arith driver_params 3 = Inr m \<and> mark_height m = PyInt 20 \<and>
        thickness m = PyInt 2)"
proof -
  have h: "1 \<le> num_marks driver_params"
    and i: "(0::int) \<le> 9" "(0::int) \<le> 4" "(0::int) \<le> 3"
    and j: "9 < num_marks driver_params" "4 < num_marks driver_params"
      "3 < num_marks driver_params"
    by (simp_all add: driver_params_def)
  show ?thesis
    using h i j weight_rule [OF h i(1) j(1)] weight_rule [OF h i(2) j(2)]
      weight_rule [OF h i(3) j(3)]
    by (simp add: driver_params_def)
qed

lemma x_pos_formula:
  assumes "1 < num_marks p" "0 \<le> i" "i < num_marks p"
  shows "\<exists>m. mark_of exact_arith p i = Inr m \<and>
    val (x_pos m) = val (margin p) + (val (width p) - 2 * val (margin p))
                       * (ln (of_int (i + 1)) / ln (of_int (num_marks p)))"
proof -
  have n: "num_marks p \<noteq> 1" using assms by simp
  show ?thesis using mark_of_float [OF n assms(2) assms(3)] by (simp add: algebra_simps)
qed


section \<open>Order and spacing of the positions\<close>

text \<open>
  C4. In exact arithmetic: with at least one mark and \<open>2 * margin < width\<close>, the positions do not decrease
  with the index: for indices \<open>i \<le> j\<close> of the loop, mark \<open>i\<close> stands at or left of mark
  \<open>j\<close>. With more than one mark the position of mark \<open>i\<close> is
  \<open>margin + (width - 2 * margin) * ln (i + 1) / ln num_marks\<close>.
\<close>

theorem positions_monotone:
  assumes "1 \<le> num_marks p" "2 * val (margin p) < val (width p)"
    and "0 \<le> i" "i \<le> j" "j < num_marks p"
  shows "\<exists>mi mj. mark_of exact_arith p i = Inr mi \<and> mark_of exact_arith p j = Inr mj \<and>
           val (x_pos mi) \<le> val (x_pos mj) \<and>
           (1 < num_marks p \<longrightarrow>
              val (x_pos mi) = val (margin p) + (val (width p) - 2 * val (margin p))
                                 * (ln (of_int (i + 1)) / ln (of_int (num_marks p))))"
proof (cases "num_marks p = 1")
  case True
  then have "i = 0" "j = 0" using assms by simp_all
  moreover obtain m where "mark_of exact_arith p 0 = Inr m"
    using mark_of_ok [of 0 p exact_arith] True by auto
  ultimately show ?thesis using True by simp
next
  case False
  then have n: "1 < num_marks p" using assms(1) by simp
  have i: "0 \<le> i" "i < num_marks p" and j: "0 \<le> j" "j < num_marks p"
    using assms by simp_all
  obtain mi where mi: "mark_of exact_arith p i = Inr mi"
    "val (x_pos mi) = val (margin p) + (val (width p) - 2 * val (margin p))
                       * (ln (of_int (i + 1)) / ln (of_int (num_marks p)))"
    using x_pos_formula [OF n i] by blast
  obtain mj where mj: "mark_of exact_arith p j = Inr mj"
    "val (x_pos mj) = val (margin p) + (val (width p) - 2 * val (margin p))
                       * (ln (of_int (j + 1)) / ln (of_int (num_marks p)))"
    using x_pos_formula [OF n j] by blast
  have l: "0 < ln (real_of_int (num_marks p))" using n by simp
  have "ln (real_of_int (i + 1)) \<le> ln (real_of_int (j + 1))"
    using assms(3) assms(4) by simp
  then have "ln (real_of_int (i + 1)) / ln (real_of_int (num_marks p))
               \<le> ln (real_of_int (j + 1)) / ln (real_of_int (num_marks p))"
    using l by (simp add: divide_right_mono)
  then have "(val (width p) - 2 * val (margin p))
                * (ln (real_of_int (i + 1)) / ln (real_of_int (num_marks p)))
             \<le> (val (width p) - 2 * val (margin p))
                * (ln (real_of_int (j + 1)) / ln (real_of_int (num_marks p)))"
    using assms(2) by (intro mult_left_mono) simp_all
  then have "val (x_pos mi) \<le> val (x_pos mj)" using mi(2) mj(2) by simp
  then show ?thesis using mi mj by blast
qed

theorem positions_monotone_witness:
  "1 \<le> num_marks driver_params \<and>
   2 * val (margin driver_params) < val (width driver_params) \<and>
   (0::int) \<le> 1 \<and> (1::int) \<le> 9 \<and> 9 < num_marks driver_params \<and>
   (\<exists>mi mj. mark_of exact_arith driver_params 1 = Inr mi \<and> mark_of exact_arith driver_params 9 = Inr mj \<and>
        val (x_pos mi) \<le> val (x_pos mj) \<and>
        val (x_pos mi) = 5 + 54 * (ln 2 / ln 10))"
proof -
  have h: "1 \<le> num_marks driver_params"
    "2 * val (margin driver_params) < val (width driver_params)"
    "(0::int) \<le> 1" "(1::int) \<le> 9" "9 < num_marks driver_params"
    by (simp_all add: driver_params_def)
  show ?thesis
    using h positions_monotone [OF h] by (simp add: driver_params_def)
qed



section \<open>The lines of the document\<close>

lemma binary64_simps [simp]:
  "fl_round (binary64 L) = round_double" "fl_log (binary64 L) = L"
  by (simp_all add: binary64_def)

lemma whole_values:
  "round_double 10 = 10" "round_double 54 = 54" "round_double 59 = 59" "round_double 64 = 64"
proof -
  show "round_double 10 = 10"
    by (rule round_double_exact [where k = 3 and n = "10 * 2 ^ 49"]) simp_all
  show "round_double 54 = 54"
    by (rule round_double_exact [where k = 5 and n = "54 * 2 ^ 47"]) simp_all
  show "round_double 59 = 59"
    by (rule round_double_exact [where k = 5 and n = "59 * 2 ^ 47"]) simp_all
  show "round_double 64 = 64"
    by (rule round_double_exact [where k = 6 and n = "2 ^ 52"]) simp_all
qed

lemma log_count_nonzero_driver: "log_count_nonzero (binary64 rounded_ln) driver_params"
proof -
  have "ln (10::real) \<noteq> 0" by simp
  then have "round_double (ln 10) \<noteq> 0" by (rule round_double_nonzero)
  then show ?thesis
    by (simp add: log_count_nonzero_def driver_params_def rounded_ln_def whole_values)
qed

lemma join_newline_Cons:
  "ls \<noteq> [] \<Longrightarrow> join_newline (l # ls) = l @ [CHR 0x0A] @ join_newline ls"
  by (cases ls) simp_all

lemma mark_fields:
  assumes "0 \<le> i" "i < num_marks p" "log_count_nonzero fl p"
  shows "mark_height (the_mark fl p i) = fst (weight fl p i)"
    and "thickness (the_mark fl p i) = snd (weight fl p i)"
    and "y_top (the_mark fl p i) = py_sub fl (baseline_y p) (mark_height (the_mark fl p i))"
proof -
  obtain r where "ratio fl p i = Inr r" using ratio_ok [OF assms] by blast
  then have "the_mark fl p i =
     \<lparr> x_pos = py_add fl (x_start p) (py_mul fl (ruler_width fl p) r),
       mark_height = fst (weight fl p i), thickness = snd (weight fl p i),
       y_top = py_sub fl (baseline_y p) (fst (weight fl p i)) \<rparr>"
    by (simp add: the_mark_def mark_of_def)
  then show "mark_height (the_mark fl p i) = fst (weight fl p i)"
    and "thickness (the_mark fl p i) = snd (weight fl p i)"
    and "y_top (the_mark fl p i) = py_sub fl (baseline_y p) (mark_height (the_mark fl p i))"
    by simp_all
qed

lemma mark_lines_parts:
  assumes "0 \<le> i" "i < num_marks p" "log_count_nonzero fl p"
  shows "mark_lines fl rf p i (the_mark fl p i) =
           [tick_comment fl i (the_mark fl p i), tick_element fl rf p (the_mark fl p i), '''']"
  by (simp add: mark_lines_def tick_comment_def tick_element_def line_element_def
      mark_fields(3) [OF assms])

lemma header_lines_parts:
  "header_lines fl rf p =
     [svg_open (py_str rf (width p)) (py_str rf (height p)),
      ''  <!-- Horizontal baseline -->'',
      baseline_element fl rf p,
      '''',
      ''  <!-- Log-spaced markings -->'']"
  by (simp add: header_lines_def svg_open_def baseline_element_def line_element_def
      x_start_def x_end_def)

lemma svg_lines_of_parts:
  assumes "log_count_nonzero fl p"
  shows "svg_lines_of fl rf p =
     Inr ([svg_open (py_str rf (width p)) (py_str rf (height p)),
           ''  <!-- Horizontal baseline -->'',
           baseline_element fl rf p,
           '''',
           ''  <!-- Log-spaced markings -->'']
          @ concat (map (\<lambda>i. [tick_comment fl i (the_mark fl p i),
                                tick_element fl rf p (the_mark fl p i), ''''])
                     (py_range (num_marks p)))
          @ [''</svg>''])"
proof -
  have "map (\<lambda>i. mark_lines fl rf p i (the_mark fl p i)) (py_range (num_marks p))
          = map (\<lambda>i. [tick_comment fl i (the_mark fl p i), tick_element fl rf p (the_mark fl p i), ''''])
              (py_range (num_marks p))"
    using assms by (intro map_cong) (simp_all add: set_py_range mark_lines_parts)
  then show ?thesis
    by (simp only: svg_lines_of_eq [OF assms] header_lines_parts)
qed

lemma kinds [simp]:
  "is_comment (tick_comment fl i m)" "\<not> is_comment (line_element a b c d e f)"
  "\<not> is_comment (svg_open w h)" "\<not> is_comment ''</svg>''"
  "is_line_element (line_element a b c d e f)" "\<not> is_line_element (tick_comment fl i m)"
  "\<not> is_line_element (svg_open w h)" "\<not> is_line_element ''</svg>''"
  "\<not> is_line_element ''''"
  "is_svg_open (svg_open w h)" "\<not> is_svg_open (tick_comment fl i m)"
  "\<not> is_svg_open (line_element a b c d e f)" "\<not> is_svg_open ''</svg>''"
  "\<not> is_svg_open ''''"
  "line_element a b c d e f \<noteq> ''''" "svg_open w h \<noteq> ''''"
  by (simp_all add: is_comment_def is_line_element_def is_svg_open_def tick_comment_def
      line_element_def svg_open_def)

text \<open>
  C6, as the generator behaves, in every arithmetic in which \<^verbatim>\<open>math.log(num_marks)\<close> is
  not zero where it is divided by. With at least one mark the call returns the lines joined by
  newlines, and the lines are, in order: the opening tag with the view box
  \<open>0 0 width height\<close>; a comment, the baseline's element, an empty line and a second
  comment; for every mark a comment, its line element and an empty line; the closing tag.
  Without the comments and the empty lines these are exactly the lines of
  \<open>spec_document_lines\<close>; there are \<open>1 + num_marks\<close> line elements, the baseline's first,
  and one opening tag.
\<close>

theorem document_lines:
  assumes "1 \<le> num_marks p" "log_count_nonzero fl p"
  shows "\<exists>ls. svg_lines_of fl rf p = Inr ls \<and>
           generate_log_ruler_svg fl rf p = Inr (join_newline ls) \<and>
           ls = [svg_open (py_str rf (width p)) (py_str rf (height p)),
                 ''  <!-- Horizontal baseline -->'',
                 baseline_element fl rf p,
                 '''',
                 ''  <!-- Log-spaced markings -->'']
                @ concat (map (\<lambda>i. [tick_comment fl i (the_mark fl p i),
                                      tick_element fl rf p (the_mark fl p i), ''''])
                           (py_range (num_marks p)))
                @ [''</svg>''] \<and>
           filter (\<lambda>l. l \<noteq> '''' \<and> \<not> is_comment l) ls = spec_document_lines fl rf p \<and>
           filter is_line_element ls
             = baseline_element fl rf p
               # map (\<lambda>i. tick_element fl rf p (the_mark fl p i)) (py_range (num_marks p)) \<and>
           length (filter is_line_element ls) = 1 + nat (num_marks p) \<and>
           filter is_svg_open ls = [svg_open (py_str rf (width p)) (py_str rf (height p))]"
proof -
  let ?ls = "[svg_open (py_str rf (width p)) (py_str rf (height p)),
                 ''  <!-- Horizontal baseline -->'',
                 baseline_element fl rf p,
                 '''',
                 ''  <!-- Log-spaced markings -->'']
                @ concat (map (\<lambda>i. [tick_comment fl i (the_mark fl p i),
                                      tick_element fl rf p (the_mark fl p i), ''''])
                           (py_range (num_marks p)))
                @ [''</svg>'']"
  have c: "is_comment ''  <!-- Horizontal baseline -->''"
    "is_comment ''  <!-- Log-spaced markings -->''"
    "\<not> is_line_element ''  <!-- Horizontal baseline -->''"
    "\<not> is_line_element ''  <!-- Log-spaced markings -->''"
    "\<not> is_svg_open ''  <!-- Horizontal baseline -->''"
    "\<not> is_svg_open ''  <!-- Log-spaced markings -->''"
    by (simp_all add: is_comment_def is_line_element_def is_svg_open_def)
  have l: "svg_lines_of fl rf p = Inr ?ls" using assms(2) by (rule svg_lines_of_parts)
  have g: "generate_log_ruler_svg fl rf p = Inr (join_newline ?ls)"
    by (simp only: generate_log_ruler_svg_def l sum.case)
  have f1: "filter (\<lambda>l. l \<noteq> '''' \<and> \<not> is_comment l) ?ls = spec_document_lines fl rf p"
    by (simp add: c filter_concat comp_def spec_document_lines_def baseline_element_def
        tick_element_def)
  have f2: "filter is_line_element ?ls
             = baseline_element fl rf p
               # map (\<lambda>i. tick_element fl rf p (the_mark fl p i)) (py_range (num_marks p))"
    by (simp add: c filter_concat comp_def baseline_element_def tick_element_def)
  have f3: "length (filter is_line_element ?ls) = 1 + nat (num_marks p)"
    by (simp only: f2 list.size length_map length_py_range)
  have f4: "filter is_svg_open ?ls = [svg_open (py_str rf (width p)) (py_str rf (height p))]"
    by (simp add: c filter_concat comp_def baseline_element_def tick_element_def)
  from l g f1 f2 f3 f4 show ?thesis by blast
qed

theorem document_lines_witness:
  "1 \<le> num_marks driver_params \<and> log_count_nonzero (binary64 rounded_ln) driver_params \<and>
   (\<exists>ls. svg_lines_of (binary64 rounded_ln) repr_tenths driver_params = Inr ls \<and>
        generate_log_ruler_svg (binary64 rounded_ln) repr_tenths driver_params
          = Inr (join_newline ls) \<and>
        filter (\<lambda>l. l \<noteq> '''' \<and> \<not> is_comment l) ls
          = spec_document_lines (binary64 rounded_ln) repr_tenths driver_params \<and>
        length (filter is_line_element ls) = 11)"
proof -
  have h: "1 \<le> num_marks driver_params" by (simp add: driver_params_def)
  have d: "log_count_nonzero (binary64 rounded_ln) driver_params"
    by (rule log_count_nonzero_driver)
  have n: "1 + nat (num_marks driver_params) = 11" by (simp add: driver_params_def)
  show ?thesis
    using h d n document_lines [OF h d, of repr_tenths] by auto
qed

lemma join_comment_neq_element:
  assumes "xs \<noteq> []" "ys \<noteq> []"
  shows "join_newline (l # ''  <!-- Horizontal baseline -->'' # xs)
           \<noteq> join_newline (l # line_element a b c d e f # ys)"
  using assms by (simp add: join_newline_Cons line_element_def)

text \<open>
  C6, as stated, fails: for the driver's parameters the returned string is not the
  opening tag, the line elements and the closing tag alone, since the generator also
  writes comment lines and empty lines.
\<close>

theorem lines_not_only_elements:
  "generate_log_ruler_svg exact_arith repr_tenths driver_params
     \<noteq> Inr (join_newline (spec_document_lines exact_arith repr_tenths driver_params))"
proof -
  let ?p = driver_params
  let ?open = "svg_open (py_str repr_tenths (width ?p)) (py_str repr_tenths (height ?p))"
  let ?ticks = "concat (map (\<lambda>i. [tick_comment exact_arith i (the_mark exact_arith ?p i),
                                    tick_element exact_arith repr_tenths ?p (the_mark exact_arith ?p i), ''''])
                         (py_range (num_marks ?p)))"
  let ?xs = "baseline_element exact_arith repr_tenths ?p # '''' # ''  <!-- Log-spaced markings -->''
               # ?ticks @ [''</svg>'']"
  let ?ys = "map (\<lambda>i. tick_element exact_arith repr_tenths ?p (the_mark exact_arith ?p i)) (py_range (num_marks ?p))
               @ [''</svg>'']"
  have l: "generate_log_ruler_svg exact_arith repr_tenths ?p
             = Inr (join_newline (?open # ''  <!-- Horizontal baseline -->'' # ?xs))"
    by (simp add: generate_log_ruler_svg_def svg_lines_of_parts)
  have r: "spec_document_lines exact_arith repr_tenths ?p = ?open # baseline_element exact_arith repr_tenths ?p # ?ys"
    by (simp add: spec_document_lines_def)
  have "join_newline (?open # ''  <!-- Horizontal baseline -->'' # ?xs)
          \<noteq> join_newline (?open # baseline_element exact_arith repr_tenths ?p # ?ys)"
    unfolding baseline_element_def by (rule join_comment_neq_element) simp_all
  then show ?thesis by (simp only: l r) simp
qed

section \<open>Printed numbers and lines by index\<close>

lemma log10_2_bounds: "65 * ln (10::real) < 216 * ln 2" "360 * ln (2::real) < 109 * ln 10"
proof -
  have pw: "ln (x ^ n) = real n * ln x" for x :: real and n
    by (rule ln_realpow)
  have p10: "ln ((10::real) ^ 65) = 65 * ln 10" "ln ((10::real) ^ 109) = 109 * ln 10"
    using pw [of 10 65] pw [of 10 109] by (simp_all del: power_numeral)
  have p2: "ln ((2::real) ^ 216) = 216 * ln 2" "ln ((2::real) ^ 360) = 360 * ln 2"
    using pw [of 2 216] pw [of 2 360] by (simp_all del: power_numeral)
  have "(10::real) ^ 65 < 2 ^ 216" by simp
  then have "ln ((10::real) ^ 65) < ln (2 ^ 216)"
    by (subst ln_less_cancel_iff) simp_all
  then show "65 * ln (10::real) < 216 * ln 2"
    by (simp only: p10 p2)
  have "(2::real) ^ 360 < 10 ^ 109" by simp
  then have "ln ((2::real) ^ 360) < ln (10 ^ 109)"
    by (subst ln_less_cancel_iff) simp_all
  then show "360 * ln (2::real) < 109 * ln 10"
    by (simp only: p10 p2)
qed

lemma tick1_bounds:
  "425 / 20 < 5 + 54 * (ln 2 / ln (10::real))" "5 + 54 * (ln 2 / ln (10::real)) < 427 / 20"
proof -
  have l: "0 < ln (10::real)" by simp
  have "65 / 216 * ln (10::real) < ln 2" using log10_2_bounds(1) by linarith
  then have "65 / 216 < ln 2 / ln (10::real)"
    by (rule iffD2 [OF pos_less_divide_eq [OF l]])
  then show "425 / 20 < 5 + 54 * (ln 2 / ln (10::real))" by linarith
  have "ln 2 < 109 / 360 * ln (10::real)" using log10_2_bounds(2) by linarith
  then have "ln 2 / ln (10::real) < 109 / 360"
    by (rule iffD2 [OF pos_divide_less_eq [OF l]])
  then show "5 + 54 * (ln 2 / ln (10::real)) < 427 / 20" by linarith
qed

lemma fmt_tick1: "fmt_1f fl (PyFloat (5 + 54 * (ln 2 / ln 10))) = ''21.3''"
proof -
  let ?x = "5 + 54 * (ln 2 / ln (10::real))"
  have p: "0 < ?x" using tick1_bounds(1) by linarith
  have "round_half_even (\<bar>?x\<bar> * 10) = 213"
    using tick1_bounds p by (intro round_half_even_near) simp_all
  moreover have "str_nat 21 = ''21''" "str_nat 3 = ''3''"
    by (simp_all add: str_nat.simps digit_char_def)
  ultimately show ?thesis using p by (simp add: fmt_1f_def fixed_1f_def Let_def)
qed

lemma fmt_whole:
  "fmt_1f fl (PyFloat 5) = ''5.0''" "fmt_1f fl (PyFloat 59) = ''59.0''"
  by (simp_all add: fmt_1f_def fixed_1f_def round_half_even_def str_nat.simps digit_char_def)

lemma svg_lines_nth_baseline:
  assumes "log_count_nonzero fl p" "svg_lines_of fl rf p = Inr ls"
  shows "ls ! 2 = baseline_element fl rf p"
  using assms(2) by (auto simp: svg_lines_of_parts [OF assms(1)])

lemma svg_lines_nth_tick:
  assumes "log_count_nonzero fl p" "svg_lines_of fl rf p = Inr ls" "k < nat (num_marks p)"
  shows "ls ! (6 + 3 * k) = tick_element fl rf p (the_mark fl p (int k))"
proof -
  let ?f = "\<lambda>i. [tick_comment fl i (the_mark fl p i), tick_element fl rf p (the_mark fl p i), '''']"
  let ?R = "py_range (num_marks p)"
  let ?H = "[svg_open (py_str rf (width p)) (py_str rf (height p)),
             ''  <!-- Horizontal baseline -->'', baseline_element fl rf p, '''',
             ''  <!-- Log-spaced markings -->'']"
  have three: "\<forall>x \<in> set ?R. length (?f x) = 3" by simp
  have k: "k < length ?R" using assms(3) by (simp add: length_py_range)
  have len: "length (concat (map ?f ?R)) = 3 * length ?R"
    using three by (rule length_concat3)
  have ls: "ls = ?H @ (concat (map ?f ?R) @ [''</svg>''])"
    using assms(2) by (simp add: svg_lines_of_parts [OF assms(1)])
  have "ls ! (6 + 3 * k) = (?H @ (concat (map ?f ?R) @ [''</svg>''])) ! (length ?H + (3 * k + 1))"
    by (simp add: ls)
  also have "\<dots> = (concat (map ?f ?R) @ [''</svg>'']) ! (3 * k + 1)"
    by (rule nth_append_length_plus)
  also have "\<dots> = concat (map ?f ?R) ! (3 * k + 1)"
    using k len by (simp add: nth_append)
  also have "\<dots> = ?f (?R ! k) ! 1"
    using three k by (rule nth_concat3) simp
  also have "\<dots> = tick_element fl rf p (the_mark fl p (int k))"
    using assms(3) by (simp add: nth_py_range)
  finally show ?thesis .
qed


section \<open>The line elements\<close>

text \<open>
  C8. In every arithmetic in which \<^verbatim>\<open>math.log(num_marks)\<close> is not zero where it is
  divided by: for every index \<open>i\<close> of the loop, the line element of mark \<open>i\<close> (line
  \<open>6 + 3 * i\<close> of the document) runs at the mark's position from \<open>y = baseline_y\<close> to
  \<open>y = baseline_y - mark_height\<close>, where \<open>mark_height\<close> is the height selected for
  \<open>i\<close>; the baseline's element (line 2) runs from \<open>x = margin\<close> to
  \<open>x = width - margin\<close> at \<open>y = baseline_y\<close>.
\<close>

theorem tick_spans:
  assumes "0 \<le> i" "i < num_marks p" "log_count_nonzero fl p"
  shows "\<exists>ls m. svg_lines_of fl rf p = Inr ls \<and> mark_of fl p i = Inr m \<and>
           mark_height m = fst (weight fl p i) \<and>
           ls ! (6 + 3 * nat i)
             = line_element (fmt_1f fl (x_pos m)) (py_str rf (baseline_y p))
                 (fmt_1f fl (x_pos m)) (py_str rf (py_sub fl (baseline_y p) (mark_height m)))
                 (color p) (py_str rf (thickness m)) \<and>
           ls ! 2
             = line_element (py_str rf (margin p)) (py_str rf (baseline_y p))
                 (py_str rf (py_sub fl (width p) (margin p))) (py_str rf (baseline_y p))
                 (color p) (py_str rf (baseline_thickness p))"
proof -
  obtain ls where ls: "svg_lines_of fl rf p = Inr ls"
    by (simp add: svg_lines_of_eq [OF assms(3)])
  have m: "mark_of fl p i = Inr (the_mark fl p i)" using assms by (rule mark_of_the_mark)
  have h: "mark_height (the_mark fl p i) = fst (weight fl p i)" using assms by (rule mark_fields(1))
  have k: "nat i < nat (num_marks p)" using assms by simp
  have t: "ls ! (6 + 3 * nat i) = tick_element fl rf p (the_mark fl p i)"
    using svg_lines_nth_tick [OF assms(3) ls k] assms(1) by simp
  have b: "ls ! 2 = baseline_element fl rf p"
    using assms(3) ls by (rule svg_lines_nth_baseline)
  from ls m h t b show ?thesis
    by (simp add: tick_element_def baseline_element_def)
qed

theorem tick_spans_witness:
  "(0::int) \<le> 0 \<and> 0 < num_marks driver_params \<and>
   log_count_nonzero (binary64 rounded_ln) driver_params \<and>
   (\<exists>ls. svg_lines_of (binary64 rounded_ln) repr_tenths driver_params = Inr ls \<and>
        ls ! 6 = line_element ''5.0'' ''55'' ''5.0'' ''15'' ''#333'' ''2.5'' \<and>
        ls ! 2 = line_element ''5'' ''55'' ''59'' ''55'' ''#333'' ''3'')"
proof -
  let ?fl = "binary64 rounded_ln"
  have h: "(0::int) \<le> 0" "0 < num_marks driver_params"
    "log_count_nonzero ?fl driver_params"
    by (simp, simp add: driver_params_def, rule log_count_nonzero_driver)
  have "ln (10::real) \<noteq> 0" by simp
  then have nz: "round_double (ln 10) \<noteq> 0" by (rule round_double_nonzero)
  have m: "mark_of ?fl driver_params 0 =
     Inr \<lparr>x_pos = PyFloat 5, mark_height = PyInt 40, thickness = PyFloat (5 / 2),
          y_top = PyInt 15\<rparr>"
    using nz
    by (simp add: mark_of_def ratio_def math_log_def py_truediv_def weight_def x_start_def
        x_end_def ruler_width_def driver_params_def rounded_ln_def small_values whole_values)
  have s: "str_int 55 = ''55''" "str_int 15 = ''15''" "str_int 5 = ''5''" "str_int 59 = ''59''"
    "str_int 3 = ''3''" "repr_tenths (5 / 2) = ''2.5''"
    by (simp_all add: str_int_def str_nat.simps digit_char_def repr_tenths_def fixed_1f_def
        round_half_even_def)
  have c: "py_str repr_tenths (margin driver_params) = ''5''"
    "py_str repr_tenths (baseline_y driver_params) = ''55''"
    "py_str repr_tenths (py_sub ?fl (width driver_params) (margin driver_params)) = ''59''"
    "py_str repr_tenths (baseline_thickness driver_params) = ''3''"
    "py_str repr_tenths (py_sub ?fl (baseline_y driver_params) (PyInt 40)) = ''15''"
    "color driver_params = ''#333''"
    by (simp_all add: driver_params_def s)
  show ?thesis
    using h tick_spans [OF h, of repr_tenths] by (auto simp: m c s fmt_whole)
qed

lemma driver_marks:
  "mark_of exact_arith driver_params 0 =
     Inr \<lparr>x_pos = PyFloat 5, mark_height = PyInt 40, thickness = PyFloat (5 / 2),
          y_top = PyInt 15\<rparr>"
  "mark_of exact_arith driver_params 1 =
     Inr \<lparr>x_pos = PyFloat (5 + 54 * ln 2 / ln 10), mark_height = PyInt 20,
          thickness = PyInt 2, y_top = PyInt 35\<rparr>"
  "mark_of exact_arith driver_params 9 =
     Inr \<lparr>x_pos = PyFloat 59, mark_height = PyInt 40, thickness = PyFloat (5 / 2),
          y_top = PyInt 15\<rparr>"
  by (simp_all add: mark_of_def ratio_def math_log_def py_truediv_def weight_def x_start_def
      x_end_def ruler_width_def driver_params_def)

lemma driver_strings:
  "py_str rf (margin driver_params) = ''5''"
  "py_str rf (baseline_y driver_params) = ''55''"
  "py_str rf (py_sub exact_arith (width driver_params) (margin driver_params)) = ''59''"
  "py_str rf (baseline_thickness driver_params) = ''3''"
  "py_str rf (py_sub exact_arith (baseline_y driver_params) (PyInt 40)) = ''15''"
  "py_str rf (py_sub exact_arith (baseline_y driver_params) (PyInt 20)) = ''35''"
  "str_int 2 = ''2''"
  "color driver_params = ''#333''"
  by (simp_all add: driver_params_def str_int_def str_nat.simps digit_char_def)


section \<open>The parameters of the script\<close>

text \<open>
  C7. In exact arithmetic, for the parameters the script passes: mark 0 stands at \<open>5.0\<close> and mark 9 at
  \<open>59.0\<close>, both tall and of thickness \<open>2.5\<close>; mark 1 stands at
  \<open>5 + 54 * ln 2 / ln 10\<close>, which is within \<open>0.05\<close> of \<open>21.3\<close> and is printed as
  \<open>21.3\<close>, and is short and of thickness \<open>2\<close>; the baseline's element runs from
  \<open>x = 5\<close> to \<open>x = 59\<close> at \<open>y = 55\<close> with thickness \<open>3\<close>. The elements are the lines
  2, 6, 9 and 33 of the document.
\<close>

theorem driver_scenario:
  "mark_of exact_arith driver_params 0 =
     Inr \<lparr>x_pos = PyFloat 5, mark_height = tall_height driver_params,
          thickness = PyFloat (5 / 2), y_top = PyInt 15\<rparr> \<and>
   mark_of exact_arith driver_params 9 =
     Inr \<lparr>x_pos = PyFloat 59, mark_height = tall_height driver_params,
          thickness = PyFloat (5 / 2), y_top = PyInt 15\<rparr> \<and>
   mark_of exact_arith driver_params 1 =
     Inr \<lparr>x_pos = PyFloat (5 + 54 * ln 2 / ln 10), mark_height = short_height driver_params,
          thickness = PyInt 2, y_top = PyInt 35\<rparr> \<and>
   \<bar>5 + 54 * ln 2 / ln 10 - 213 / 10\<bar> < (1 / 20 :: real) \<and>
   (\<exists>ls. svg_lines_of exact_arith float_repr driver_params = Inr ls \<and>
        ls ! 2 = line_element ''5'' ''55'' ''59'' ''55'' ''#333'' ''3'' \<and>
        ls ! 6 = line_element ''5.0'' ''55'' ''5.0'' ''15'' ''#333'' (float_repr (5 / 2)) \<and>
        ls ! 9 = line_element ''21.3'' ''55'' ''21.3'' ''35'' ''#333'' ''2'' \<and>
        ls ! 33 = line_element ''59.0'' ''55'' ''59.0'' ''15'' ''#333'' (float_repr (5 / 2)))"
proof -
  let ?p = driver_params
  have tiers: "tall_height ?p = PyInt 40" "short_height ?p = PyInt 20"
    by (simp_all add: driver_params_def)
  have "\<bar>5 + 54 * (ln 2 / ln 10) - 213 / 10\<bar> < (1 / 20 :: real)"
    using tick1_bounds by linarith
  then have near: "\<bar>5 + 54 * ln 2 / ln 10 - 213 / 10\<bar> < (1 / 20 :: real)"
    by (simp only: times_divide_eq_right)
  have ok: "log_count_nonzero exact_arith ?p" by simp
  obtain ls where ls: "svg_lines_of exact_arith float_repr ?p = Inr ls"
    by (simp add: svg_lines_of_eq)
  have n: "0 < nat (num_marks ?p)" "1 < nat (num_marks ?p)" "9 < nat (num_marks ?p)"
    by (simp_all add: driver_params_def)
  have the: "the_mark exact_arith ?p 0 = \<lparr>x_pos = PyFloat 5, mark_height = PyInt 40,
                                thickness = PyFloat (5 / 2), y_top = PyInt 15\<rparr>"
    "the_mark exact_arith ?p 1 = \<lparr>x_pos = PyFloat (5 + 54 * ln 2 / ln 10), mark_height = PyInt 20,
                          thickness = PyInt 2, y_top = PyInt 35\<rparr>"
    "the_mark exact_arith ?p 9 = \<lparr>x_pos = PyFloat 59, mark_height = PyInt 40,
                          thickness = PyFloat (5 / 2), y_top = PyInt 15\<rparr>"
    by (simp_all add: the_mark_def driver_marks)
  have f1: "fmt_1f exact_arith (PyFloat (5 + 54 * ln 2 / ln 10)) = ''21.3''"
    using fmt_tick1 by simp
  have l2: "ls ! 2 = line_element ''5'' ''55'' ''59'' ''55'' ''#333'' ''3''"
    using svg_lines_nth_baseline [OF ok ls] by (simp add: baseline_element_def driver_strings)
  have l6: "ls ! 6 = line_element ''5.0'' ''55'' ''5.0'' ''15'' ''#333'' (float_repr (5 / 2))"
    using svg_lines_nth_tick [OF ok ls n(1)]
    by (simp add: tick_element_def the driver_strings fmt_whole)
  have l9: "ls ! 9 = line_element ''21.3'' ''55'' ''21.3'' ''35'' ''#333'' ''2''"
    using svg_lines_nth_tick [OF ok ls n(2)]
    by (simp add: tick_element_def the driver_strings f1)
  have l33: "ls ! 33 = line_element ''59.0'' ''55'' ''59.0'' ''15'' ''#333'' (float_repr (5 / 2))"
    using svg_lines_nth_tick [OF ok ls n(3)]
    by (simp add: tick_element_def the driver_strings fmt_whole)
  from near ls l2 l6 l9 l33 show ?thesis
    by (simp add: driver_marks tiers)
qed


section \<open>No marks\<close>

text \<open>
  C10. In every arithmetic: with a mark count of zero or less the range is empty, so the loop body never runs:
  the call returns the five lines written before the loop and the closing tag, whose only
  line element is the baseline's. The logarithm of such a count would raise, but it is
  never taken.
\<close>

theorem no_marks:
  assumes "num_marks p \<le> 0"
  shows "py_range (num_marks p) = [] \<and>
         svg_lines_of fl rf p = Inr (header_lines fl rf p @ [''</svg>'']) \<and>
         generate_log_ruler_svg fl rf p = Inr (join_newline (header_lines fl rf p @ [''</svg>''])) \<and>
         filter is_line_element (header_lines fl rf p @ [''</svg>'']) = [baseline_element fl rf p] \<and>
         math_log fl (num_marks p) = Inl ValueError"
proof -
  have r: "py_range (num_marks p) = []" using assms by (rule py_range_nonpos)
  have l: "svg_lines_of fl rf p = Inr (header_lines fl rf p @ [''</svg>''])"
    by (simp add: svg_lines_of_def r)
  have g: "generate_log_ruler_svg fl rf p = Inr (join_newline (header_lines fl rf p @ [''</svg>'']))"
    by (simp only: generate_log_ruler_svg_def l sum.case)
  have c: "\<not> is_line_element ''  <!-- Horizontal baseline -->''"
    "\<not> is_line_element ''  <!-- Log-spaced markings -->''"
    by (simp_all add: is_line_element_def)
  have f: "filter is_line_element (header_lines fl rf p @ [''</svg>'']) = [baseline_element fl rf p]"
    by (simp add: header_lines_parts c baseline_element_def)
  have e: "math_log fl (num_marks p) = Inl ValueError" using assms by (simp add: math_log_def)
  from r l g f e show ?thesis by blast
qed

theorem no_marks_witness:
  "num_marks (driver_params\<lparr>num_marks := - 3\<rparr>) \<le> 0 \<and>
   svg_lines_of (binary64 rounded_ln) repr_tenths (driver_params\<lparr>num_marks := - 3\<rparr>)
     = Inr [svg_open ''64'' ''64'',
            ''  <!-- Horizontal baseline -->'',
            line_element ''5'' ''55'' ''59'' ''55'' ''#333'' ''3'',
            '''',
            ''  <!-- Log-spaced markings -->'',
            ''</svg>'']"
proof -
  have h: "num_marks (driver_params\<lparr>num_marks := - 3\<rparr>) \<le> 0" by simp
  have s: "str_int 64 = ''64''" "str_int 55 = ''55''" "str_int 5 = ''5''" "str_int 59 = ''59''"
    "str_int 3 = ''3''"
    by (simp_all add: str_int_def str_nat.simps digit_char_def)
  show ?thesis
    using h no_marks [OF h, of "binary64 rounded_ln" repr_tenths]
    by (simp add: header_lines_parts baseline_element_def driver_params_def s)
qed

section \<open>Positions of the first and the last mark\<close>

lemma py_mul_float: "py_mul fl a (PyFloat r) = PyFloat (fl_round fl (to_float fl a * r))"
  by (cases a) simp_all

lemma py_add_float: "py_add fl a (PyFloat r) = PyFloat (fl_round fl (to_float fl a + r))"
  by (cases a) simp_all

lemma no_rounding_operands:
  assumes "no_rounding fl p"
  shows "to_float fl (margin p) = val (margin p)"
    and "to_float fl (ruler_width fl p) = val (width p) - 2 * val (margin p)"
proof -
  have m: "fl_round fl (val (margin p)) = val (margin p)"
    and w: "fl_round fl (val (width p)) = val (width p)"
    and d: "fl_round fl (val (width p) - val (margin p)) = val (width p) - val (margin p)"
    and r: "fl_round fl (val (width p) - 2 * val (margin p)) = val (width p) - 2 * val (margin p)"
    using assms by (simp_all add: no_rounding_def)
  show tm: "to_float fl (margin p) = val (margin p)"
    using m by (cases "margin p") simp_all
  have tw: "to_float fl (width p) = val (width p)"
    using w by (cases "width p") simp_all
  have e: "val (width p) - val (margin p) - val (margin p) = val (width p) - 2 * val (margin p)"
    by simp
  show "to_float fl (ruler_width fl p) = val (width p) - 2 * val (margin p)"
  proof (cases "\<exists>a b. margin p = PyInt a \<and> width p = PyInt b")
    case True
    then obtain a b where ab: "margin p = PyInt a" "width p = PyInt b" by blast
    have "real_of_int (b - a - a) = val (width p) - 2 * val (margin p)"
      by (simp add: ab)
    then show ?thesis
      using r by (simp add: ruler_width_def x_end_def x_start_def ab)
  next
    case False
    then have "x_end fl p = PyFloat (val (width p) - val (margin p))"
      using tm tw d by (cases "margin p"; cases "width p") (simp_all add: x_end_def)
    then show ?thesis
      using tm r e by (cases "margin p") (simp_all add: ruler_width_def x_start_def)
  qed
qed



lemma skewed_fields:
  "num_marks skewed_params = 2"
  "width skewed_params = PyFloat (round_double (47 / 10))"
  "margin skewed_params = PyFloat (- 2)"
  by (simp_all add: skewed_params_def)

lemma skewed_x_end:
  "x_end (binary64 rounded_ln) skewed_params = PyFloat (7543529375845581 / 2 ^ 50)"
  by (simp only: x_end_def skewed_fields py_sub.simps to_float.simps binary64_simps
      literal_4_7 sub_4_7)

lemma skewed_ruler_width:
  "ruler_width (binary64 rounded_ln) skewed_params = PyFloat (4897664594765414 / 2 ^ 49)"
  by (simp only: ruler_width_def skewed_x_end x_start_def skewed_fields py_sub.simps
      to_float.simps binary64_simps sub_6_7)

lemma skewed_ratio:
  "ratio (binary64 rounded_ln) skewed_params 1 = Inr (PyFloat 1)"
proof -
  have "ln (2::real) \<noteq> 0" by simp
  then have "round_double (ln 2) \<noteq> 0" by (rule round_double_nonzero)
  then show ?thesis
    by (simp add: ratio_def math_log_def py_truediv_def skewed_fields rounded_ln_def
        small_values)
qed

lemma skewed_x_pos:
  "py_add (binary64 rounded_ln) (x_start skewed_params)
     (py_mul (binary64 rounded_ln) (ruler_width (binary64 rounded_ln) skewed_params) (PyFloat 1))
   = PyFloat (7543529375845580 / 2 ^ 50)"
  by (simp only: skewed_ruler_width x_start_def skewed_fields py_mul.simps py_add.simps
      to_float.simps binary64_simps mul_8_7 add_8_7)


end
